theory Spec2Isabelle
  imports Complex_Main "HOL-Library.Product_Lexorder" "HOL-Library.Multiset"
begin

section \<open>Text\<close>

text \<open>
  A Python \<open>str\<close> is modelled as a \<open>string\<close>: the list of the bytes of its UTF-8
  encoding. On ASCII text the model is exact, one \<open>char\<close> per Python character. The
  character classes below are the ASCII part of Python's: a byte from 128 on is neither a
  letter, a digit nor white space here, so it is never changed by \<open>lower\<close> and never
  matched by \<open>\s\<close> or \<open>\d\<close>.
\<close>

definition uppers :: string where
  "uppers = ''ABCDEFGHIJKLMNOPQRSTUVWXYZ''"

definition lowers :: string where
  "lowers = ''abcdefghijklmnopqrstuvwxyz''"

definition digits :: string where
  "digits = ''0123456789''"

definition newline :: char where
  "newline = CHR 0x0A"

text \<open>
  The ASCII characters for which \<open>str.isspace\<close> holds, which are those \<open>str.strip()\<close>
  removes and the pattern \<open>\s\<close> matches: tab, line feed, vertical tab, form feed, carriage
  return, the four separators 0x1C to 0x1F, and the space.
\<close>

definition whitespace :: string where
  "whitespace = [CHR 0x09, CHR 0x0A, CHR 0x0B, CHR 0x0C, CHR 0x0D,
                 CHR 0x1C, CHR 0x1D, CHR 0x1E, CHR 0x1F, CHR 0x20]"

definition lower_char :: "char \<Rightarrow> char" where
  "lower_char c = (case map_of (zip uppers lowers) c of Some l \<Rightarrow> l | None \<Rightarrow> c)"

definition upper_char :: "char \<Rightarrow> char" where
  "upper_char c = (case map_of (zip lowers uppers) c of Some u \<Rightarrow> u | None \<Rightarrow> c)"

text \<open>\<open>s.lower()\<close>\<close>

definition lower :: "string \<Rightarrow> string" where
  "lower s = map lower_char s"

text \<open>\<open>s.strip()\<close>\<close>

definition strip :: "string \<Rightarrow> string" where
  "strip s = rev (dropWhile (\<lambda>c. c \<in> set whitespace) (rev (dropWhile (\<lambda>c. c \<in> set whitespace) s)))"

definition startswith :: "string \<Rightarrow> string \<Rightarrow> bool" where
  "startswith s x \<longleftrightarrow> take (length x) s = x"

text \<open>\<open>x in t\<close> on strings: \<open>x\<close> occurs in \<open>t\<close> as a contiguous run.\<close>

fun contains :: "string \<Rightarrow> string \<Rightarrow> bool" where
  "contains [] x = (x = [])"
| "contains (c # t) x = (startswith (c # t) x \<or> contains t x)"

text \<open>\<open>any(x in t for x in xs)\<close>\<close>

definition any_in :: "string list \<Rightarrow> string \<Rightarrow> bool" where
  "any_in xs t = list_ex (\<lambda>x. contains t x) xs"

text \<open>\<open>int(s)\<close> on a run of decimal digits.\<close>

definition digit_val :: "char \<Rightarrow> int" where
  "digit_val c = int (length (takeWhile (\<lambda>d. d \<noteq> c) digits))"

definition int_of_digits :: "string \<Rightarrow> int" where
  "int_of_digits s = foldl (\<lambda>n c. 10 * n + digit_val c) 0 s"

section \<open>Regular expressions\<close>

text \<open>
  The patterns of the program, as a datatype, and the backtracking matcher of the \<open>re\<close>
  module on them. A position is the text still to be read, with a flag that says whether
  it is the start of the subject (where \<open>^\<close> matches). \<open>rmatch r p\<close> lists the positions
  where a match of \<open>r\<close> begun at \<open>p\<close> can end, in the order in which the matcher tries
  them: the first alternative before the second, a greedy repetition longest first, a lazy
  one shortest first. The match the module reports at \<open>p\<close> is the head of that list.
\<close>

datatype re =
    Eps
  | Chars "char list"
  | NotChars "char list"
  | Seq re re
  | Alt re re
  | Star re
  | Lazy re
  | Bol
  | Eol

type_synonym pos = "bool \<times> string"

fun rmatch :: "re \<Rightarrow> pos \<Rightarrow> pos list" where
  "rmatch Eps p = [p]"
| "rmatch (Chars cs) (b, s) =
     (case s of [] \<Rightarrow> [] | c # s' \<Rightarrow> if c \<in> set cs then [(False, s')] else [])"
| "rmatch (NotChars cs) (b, s) =
     (case s of [] \<Rightarrow> [] | c # s' \<Rightarrow> if c \<notin> set cs then [(False, s')] else [])"
| "rmatch (Seq r1 r2) p = concat (map (\<lambda>q. rmatch r2 q) (rmatch r1 p))"
| "rmatch (Alt r1 r2) p = rmatch r1 p @ rmatch r2 p"
| "rmatch (Star r) p =
     concat (map (\<lambda>q. rmatch (Star r) q)
       (filter (\<lambda>q. length (snd q) < length (snd p)) (rmatch r p))) @ [p]"
| "rmatch (Lazy r) p =
     p # concat (map (\<lambda>q. rmatch (Lazy r) q)
       (filter (\<lambda>q. length (snd q) < length (snd p)) (rmatch r p)))"
| "rmatch Bol (b, s) = (if b then [(b, s)] else [])"
| "rmatch Eol (b, s) = (if s = [] \<or> s = [newline] then [(b, s)] else [])"

text \<open>Pattern syntax: a literal character, a literal string, \<open>r+\<close>, \<open>r?\<close>, \<open>r{n}\<close>.\<close>

definition Lit :: "char \<Rightarrow> re" where
  "Lit c = Chars [c]"

definition seqs :: "re list \<Rightarrow> re" where
  "seqs rs = foldr Seq rs Eps"

definition str :: "string \<Rightarrow> re" where
  "str s = seqs (map Lit s)"

definition plus :: "re \<Rightarrow> re" where
  "plus r = Seq r (Star r)"

definition opt :: "re \<Rightarrow> re" where
  "opt r = Alt r Eps"

definition rep :: "nat \<Rightarrow> re \<Rightarrow> re" where
  "rep n r = seqs (replicate n r)"

text \<open>\<open>.\<close> (no DOTALL flag), \<open>\s\<close> and \<open>\d\<close>.\<close>

definition dot :: re where
  "dot = NotChars [newline]"

definition ws :: re where
  "ws = Chars whitespace"

definition digit :: re where
  "digit = Chars digits"

text \<open>The flag \<open>re.IGNORECASE\<close>: a character of a class stands for both of its cases.\<close>

fun icase :: "re \<Rightarrow> re" where
  "icase (Chars cs) = Chars (map lower_char cs @ map upper_char cs)"
| "icase (NotChars cs) = NotChars (map lower_char cs @ map upper_char cs)"
| "icase (Seq r1 r2) = Seq (icase r1) (icase r2)"
| "icase (Alt r1 r2) = Alt (icase r1) (icase r2)"
| "icase (Star r) = Star (icase r)"
| "icase (Lazy r) = Lazy (icase r)"
| "icase r = r"

text \<open>
  \<open>re.search(r, s)\<close>: the match at the leftmost position that has one, as the matched
  text (\<open>m.group(0)\<close>); \<open>None\<close> when no position has a match.
\<close>

fun search_from :: "re \<Rightarrow> bool \<Rightarrow> string \<Rightarrow> string option" where
  "search_from r b [] =
     (case rmatch r (b, []) of [] \<Rightarrow> None | q # _ \<Rightarrow> Some [])"
| "search_from r b (c # s) =
     (case rmatch r (b, c # s) of
        [] \<Rightarrow> search_from r False s
      | q # _ \<Rightarrow> Some (take (length (c # s) - length (snd q)) (c # s)))"

definition re_search :: "re \<Rightarrow> string \<Rightarrow> string option" where
  "re_search r s = search_from r True s"

text \<open>
  \<open>re.sub(r, repl, s)\<close> for a constant replacement: every match, found left to right
  and each begun where the one before ended, is replaced. Where the match at a position is
  empty or there is none, the character is copied and the scan moves on by one.
\<close>

function sub_from :: "re \<Rightarrow> string \<Rightarrow> bool \<Rightarrow> string \<Rightarrow> string" where
  "sub_from r repl b [] = (case rmatch r (b, []) of [] \<Rightarrow> [] | q # _ \<Rightarrow> repl)"
| "sub_from r repl b (c # s) =
     (case rmatch r (b, c # s) of
        [] \<Rightarrow> c # sub_from r repl False s
      | q # _ \<Rightarrow>
          if length (snd q) < length (c # s) then repl @ sub_from r repl False (snd q)
          else repl @ c # sub_from r repl False s)"
  by pat_completeness auto
termination
  by (relation "measure (\<lambda>(r, repl, b, s). length s)") auto

definition re_sub :: "re \<Rightarrow> string \<Rightarrow> string \<Rightarrow> string" where
  "re_sub r repl s = sub_from r repl True s"

section \<open>Configuration\<close>

definition AFFILIATE_TAG :: string where
  "AFFILIATE_TAG = ''syncflow-20''"

definition MAX_DEALS :: nat where
  "MAX_DEALS = 80"

definition max_per_category :: nat where
  "max_per_category = 25"

text \<open>\<open>AMAZON_LINK_REGEX = r'(https://www\.amazon\.com/[^\s"<]+)'\<close>\<close>

definition AMAZON_LINK_REGEX :: re where
  "AMAZON_LINK_REGEX =
     Seq (str ''https://www.amazon.com/'') (plus (NotChars (whitespace @ [CHR 0x22, CHR ''<''])))"

text \<open>\<open>ASIN_REGEX = r"([A-Z0-9]{10})"\<close>\<close>

definition ASIN_REGEX :: re where
  "ASIN_REGEX = rep 10 (Chars (uppers @ digits))"

text \<open>\<open>PRICE_REGEX = r"(\$[0-9]+(?:\.[0-9]{1,2})?)"\<close>\<close>

definition PRICE_REGEX :: re where
  "PRICE_REGEX =
     seqs [Lit CHR ''$'', plus (Chars digits),
           opt (seqs [Lit CHR ''.'', Chars digits, opt (Chars digits)])]"

text \<open>\<open>DISCOUNT_REGEX = r"(\d+)%"\<close>\<close>

definition DISCOUNT_REGEX :: re where
  "DISCOUNT_REGEX = Seq (plus digit) (Lit CHR ''%'')"

section \<open>Helpers\<close>

definition amazon_image_from_asin :: "string \<Rightarrow> string option" where
  "amazon_image_from_asin asin =
     (if asin = [] then None
      else Some (''https://m.media-amazon.com/images/I/'' @ asin @ ''._AC_SL1500_.jpg''))"

definition extract_amazon_url :: "string \<Rightarrow> string \<Rightarrow> string option" where
  "extract_amazon_url summary fallback =
     (if contains fallback ''amazon.com'' then Some fallback
      else re_search AMAZON_LINK_REGEX summary)"

definition extract_asin :: "string \<Rightarrow> string option" where
  "extract_asin url = re_search ASIN_REGEX url"

definition extract_price_from_title :: "string \<Rightarrow> string option" where
  "extract_price_from_title title = re_search PRICE_REGEX title"

text \<open>
  Group 1 of \<open>DISCOUNT_REGEX\<close> is the match without the \<open>%\<close> that ends it.
\<close>

definition extract_discount_from_title :: "string \<Rightarrow> int" where
  "extract_discount_from_title title =
     (case re_search DISCOUNT_REGEX title of
        Some m \<Rightarrow> int_of_digits (butlast m)
      | None \<Rightarrow> 0)"

text \<open>
  The HTML parser is a library outside the program. It is a parameter of the model:
  \<open>html_img summary\<close> is \<open>None\<close> when the parsed summary has no \<open>img\<close> element, and
  otherwise \<open>Some a\<close> with \<open>a\<close> the \<open>src\<close> attribute of the first one (\<open>None\<close> when
  the element has no such attribute).
\<close>

type_synonym html_parser = "string \<Rightarrow> string option option"

definition extract_image_from_summary :: "html_parser \<Rightarrow> string \<Rightarrow> string option" where
  "extract_image_from_summary html_img summary =
     (case html_img summary of
        Some (Some src) \<Rightarrow> if src \<noteq> [] then Some src else None
      | _ \<Rightarrow> None)"

text \<open>The five patterns of \<open>clean_title\<close>, in the order in which it applies them.\<close>

text \<open>\<open>r'\[.*?\]'\<close>\<close>

definition bracket_tag :: re where
  "bracket_tag = seqs [Lit CHR ''['', Lazy dot, Lit CHR '']'']"

text \<open>\<open>r'\(\s*\d+%\s*OFF\s*\)'\<close> with \<open>re.IGNORECASE\<close>\<close>

definition paren_discount :: re where
  "paren_discount =
     icase (seqs [Lit CHR ''('', Star ws, plus digit, Lit CHR ''%'', Star ws, str ''OFF'',
                  Star ws, Lit CHR '')''])"

text \<open>\<open>r'-\s*\$\d+(\.\d{2})?$'\<close>\<close>

definition trailing_price :: re where
  "trailing_price =
     seqs [Lit CHR ''-'', Star ws, Lit CHR ''$'', plus digit,
           opt (Seq (Lit CHR ''.'') (rep 2 digit)), Eol]"

text \<open>\<open>r'^(Deal:|Hot Deal:|Amazon Deal:)'\<close> with \<open>re.IGNORECASE\<close>\<close>

definition deal_prefix :: re where
  "deal_prefix =
     icase (Seq Bol (Alt (str ''Deal:'') (Alt (str ''Hot Deal:'') (str ''Amazon Deal:''))))"

text \<open>\<open>r'\s+'\<close>\<close>

definition blank_run :: re where
  "blank_run = plus ws"

definition clean_title :: "string \<Rightarrow> string" where
  "clean_title title =
     (let title = re_sub bracket_tag [] title;
          title = re_sub paren_discount [] title;
          title = re_sub trailing_price [] title;
          title = re_sub deal_prefix [] title;
          title = strip (re_sub blank_run '' '' title)
      in title)"

section \<open>Scoring\<close>

text \<open>
  \<open>float(s)\<close> is modelled on decimal numerals: digits with at most one point among them
  and at least one digit, read as the rational number they denote; \<open>None\<close> stands for the
  \<open>ValueError\<close>. That covers every price text the program passes: a match of
  \<open>PRICE_REGEX\<close> without its \<open>$\<close>, or \<open>?\<close>. Signs, exponents, \<open>inf\<close>, \<open>nan\<close>,
  underscores and surrounding blanks, which \<open>float\<close> also reads, are not modelled. A
  numeral with at most two digits after the point compares with 10, 25 and 50 as its
  double does.
\<close>

definition float_of :: "string \<Rightarrow> rat option" where
  "float_of s =
     (let ip = takeWhile (\<lambda>c. c \<in> set digits) s;
          rest = dropWhile (\<lambda>c. c \<in> set digits) s;
          fp = (if rest = [] then [] else tl rest)
      in if (rest = [] \<or> hd rest = CHR ''.'') \<and> list_all (\<lambda>c. c \<in> set digits) fp \<and> ip @ fp \<noteq> []
         then Some (of_int (int_of_digits (ip @ fp)) / 10 ^ length fp)
         else None)"

definition calculate_deal_score :: "string \<Rightarrow> string \<Rightarrow> int \<Rightarrow> int" where
  "calculate_deal_score title price discount =
     (let score = 0;
          score = (if price \<noteq> [] then
                     (case float_of (filter (\<lambda>c. c \<noteq> CHR ''$'') price) of
                        Some price_val \<Rightarrow>
                          if price_val \<le> 10 then score + 3
                          else if price_val \<le> 25 then score + 2
                          else if price_val \<le> 50 then score + 1
                          else score
                      | None \<Rightarrow> score)
                   else score);
          score = (if discount \<ge> 50 then score + 3
                   else if discount \<ge> 30 then score + 2
                   else if discount \<ge> 20 then score + 1
                   else score);
          title_lower = lower title;
          score = (if any_in [''new'', ''hot'', ''limited'', ''exclusive''] title_lower
                   then score + 1 else score)
      in score)"

section \<open>Categories\<close>

definition tech_keywords :: "string list" where
  "tech_keywords =
     [''ssd'', ''hdd'', ''nvme'', ''gpu'', ''graphics card'', ''ram'', ''memory'', ''keyboard'',
      ''mouse'', ''monitor'', ''router'', ''ipad'', ''iphone'', ''tablet'', ''laptop'', ''pc case'',
      ''cable'', ''charger'', ''headphones'', ''earbuds'']"

definition gaming_keywords :: "string list" where
  "gaming_keywords =
     [''gaming'', ''nintendo'', ''playstation'', ''xbox'', ''steam'', ''game'', ''controller'',
      ''joystick'']"

definition home_keywords :: "string list" where
  "home_keywords =
     [''sofa'', ''mattress'', ''vacuum'', ''kitchen'', ''cookware'', ''air purifier'', ''heater'',
      ''humidifier'', ''purifier'', ''bulb'', ''lamp'', ''blanket'', ''towel'', ''appliance'']"

definition fitness_keywords :: "string list" where
  "fitness_keywords =
     [''shoe'', ''fitness'', ''yoga'', ''treadmill'', ''dumbbell'', ''protein'', ''sneakers'',
      ''running'', ''workout'', ''gym'', ''exercise'', ''bike'']"

definition accessories_keywords :: "string list" where
  "accessories_keywords =
     [''case'', ''charger'', ''backpack'', ''watch band'', ''wallet'', ''sleeve'', ''stand'',
      ''mount'', ''holder'']"

definition gifts_keywords :: "string list" where
  "gifts_keywords =
     [''gift'', ''holiday'', ''christmas'', ''present'', ''lego'', ''toy'', ''puzzle'',
      ''board game'', ''card game'']"

definition baby_keywords :: "string list" where
  "baby_keywords =
     [''baby'', ''kids'', ''children'', ''diaper'', ''stroller'', ''crib'', ''toy'',
      ''educational'']"

definition beauty_keywords :: "string list" where
  "beauty_keywords =
     [''shampoo'', ''conditioner'', ''soap'', ''lotion'', ''perfume'', ''makeup'', ''skincare'',
      ''hair'', ''nail'']"

definition pets_keywords :: "string list" where
  "pets_keywords =
     [''dog'', ''cat'', ''pet'', ''puppy'', ''kitten'', ''collar'', ''leash'', ''bed'', ''food'',
      ''treat'']"

text \<open>The chain of tests of \<open>categorize\<close>, each on the keyword list written in it.\<close>

definition categorize :: "string \<Rightarrow> string" where
  "categorize title =
     (let t = lower title in
      if any_in tech_keywords t then ''Tech''
      else if any_in gaming_keywords t then ''Gaming''
      else if any_in home_keywords t then ''Home''
      else if any_in fitness_keywords t then ''Fitness''
      else if any_in accessories_keywords t then ''Accessories''
      else if any_in gifts_keywords t then ''Gifts''
      else if any_in baby_keywords t then ''Baby''
      else if any_in beauty_keywords t then ''Beauty''
      else if any_in pets_keywords t then ''Pets''
      else ''General'')"

text \<open>
  The specification's reading of the categorizer: a table of labels with their keyword
  lists, in order, of which the first row with a keyword in the text gives the label, and
  \<open>General\<close> when no row has one.
\<close>

definition taxonomy :: "(string \<times> string list) list" where
  "taxonomy =
     [(''Tech'', tech_keywords), (''Gaming'', gaming_keywords), (''Home'', home_keywords),
      (''Fitness'', fitness_keywords), (''Accessories'', accessories_keywords),
      (''Gifts'', gifts_keywords), (''Baby'', baby_keywords), (''Beauty'', beauty_keywords),
      (''Pets'', pets_keywords)]"

fun first_match :: "(string \<times> string list) list \<Rightarrow> string \<Rightarrow> string" where
  "first_match [] t = ''General''"
| "first_match ((label, keywords) # rows) t =
     (if any_in keywords t then label else first_match rows t)"

section \<open>Title similarity\<close>

text \<open>
  \<open>SequenceMatcher(None, a, b).ratio()\<close> of the library \<open>difflib\<close>, from its
  documentation: \<open>find_longest_match\<close> returns a longest block \<open>a[i:i+k] == b[j:j+k]\<close>,
  of all longest blocks one that starts earliest in \<open>a\<close> and, of those, earliest in
  \<open>b\<close>; the matching blocks are that block and, recursively, those of the pieces to its
  left and to its right; the ratio is twice the number of matched characters over the sum
  of the two lengths, and 1 when both are empty. The library's heuristic that sets aside
  frequent characters applies only when \<open>b\<close> has 200 characters or more and is not
  modelled.
\<close>

fun common_prefix :: "string \<Rightarrow> string \<Rightarrow> nat" where
  "common_prefix (x # xs) (y # ys) = (if x = y then Suc (common_prefix xs ys) else 0)"
| "common_prefix _ _ = 0"

definition find_longest_match :: "string \<Rightarrow> string \<Rightarrow> nat \<times> nat \<times> nat" where
  "find_longest_match a b =
     foldl (\<lambda>best cand. if snd (snd cand) > snd (snd best) then cand else best) (0, 0, 0)
       (concat (map (\<lambda>i. map (\<lambda>j. (i, j, common_prefix (drop i a) (drop j b)))
                              [0..<length b]) [0..<length a]))"

lemma common_prefix_le: "common_prefix xs ys \<le> length xs \<and> common_prefix xs ys \<le> length ys"
  by (induction xs ys rule: common_prefix.induct) auto

lemma foldl_pick:
  "P init \<Longrightarrow> (\<And>c. c \<in> set cs \<Longrightarrow> P c) \<Longrightarrow>
   P (foldl (\<lambda>best cand. if (g cand :: nat) > g best then cand else best) init cs)"
  by (induction cs arbitrary: init) auto

lemma find_longest_match_bounds:
  "find_longest_match a b = (i, j, k) \<Longrightarrow> i + k \<le> length a \<and> j + k \<le> length b"
proof -
  let ?P = "\<lambda>c :: nat \<times> nat \<times> nat.
    fst c + snd (snd c) \<le> length a \<and> fst (snd c) + snd (snd c) \<le> length b"
  have cand: "?P c"
    if "c \<in> set (concat (map (\<lambda>i. map (\<lambda>j. (i, j, common_prefix (drop i a) (drop j b)))
                              [0..<length b]) [0..<length a]))" for c
  proof -
    from that obtain i' j' where c: "c = (i', j', common_prefix (drop i' a) (drop j' b))"
      and i': "i' < length a" and j': "j' < length b"
      by auto
    have "common_prefix (drop i' a) (drop j' b) \<le> length a - i'"
      and "common_prefix (drop i' a) (drop j' b) \<le> length b - j'"
      using common_prefix_le [of "drop i' a" "drop j' b"] by simp_all
    with c i' j' show ?thesis by (simp add: le_diff_conv2 add.commute)
  qed
  have "?P (find_longest_match a b)"
    unfolding find_longest_match_def
    by (rule foldl_pick [where P = ?P and g = "\<lambda>c. snd (snd c)"]) (simp, rule cand)
  then show "find_longest_match a b = (i, j, k) \<Longrightarrow> i + k \<le> length a \<and> j + k \<le> length b"
    by simp
qed

function matched :: "string \<Rightarrow> string \<Rightarrow> nat" where
  "matched a b =
     (case find_longest_match a b of
        (i, j, k) \<Rightarrow>
          if k = 0 then 0
          else matched (take i a) (take j b) + k + matched (drop (i + k) a) (drop (j + k) b))"
  by pat_completeness auto
termination
  by (relation "measure (\<lambda>(a, b). length a + length b)")
     (auto dest!: find_longest_match_bounds [OF sym])

text \<open>
  The ratio is a double in the program; here it is the rational number that the double
  rounds. The comparison with the threshold 0.85 is the same for both as long as the two
  titles have fewer than \<open>2 ^ 50\<close> characters between them.
\<close>

definition ratio :: "string \<Rightarrow> string \<Rightarrow> rat" where
  "ratio a b =
     (let n = length a + length b
      in if n = 0 then 1 else 2 * of_nat (matched a b) / of_nat n)"

definition is_duplicate_title :: "string \<Rightarrow> string \<Rightarrow> bool" where
  "is_duplicate_title title1 title2 \<longleftrightarrow> ratio (lower title1) (lower title2) \<ge> 85 / 100"

section \<open>The affiliate tag\<close>

text \<open>
  The functions of the library \<open>urllib.parse\<close> that \<open>add_affiliate_tag\<close> calls, after
  their source in CPython 3.11. \<open>urlparse\<close> raises \<open>ValueError\<close> on some addresses; an
  exception is the value \<open>Inl ValueError\<close>. The check of a host name that is not ASCII
  (\<open>_checknetloc\<close>, on its Unicode normal form) is not modelled.
\<close>

datatype py_error = ValueError

text \<open>\<open>s.partition(c)\<close>: the text before the first \<open>c\<close> and the text after it.\<close>

definition before :: "char \<Rightarrow> string \<Rightarrow> string" where
  "before c s = takeWhile (\<lambda>x. x \<noteq> c) s"

definition after :: "char \<Rightarrow> string \<Rightarrow> string" where
  "after c s = drop (Suc (length (before c s))) s"

text \<open>\<open>s.split(sep)\<close> and \<open>sep.join(xs)\<close> for a separator of one character.\<close>

fun split :: "char \<Rightarrow> string \<Rightarrow> string list" where
  "split sep [] = [[]]"
| "split sep (c # s) =
     (if c = sep then [] # split sep s
      else (case split sep s of x # xs \<Rightarrow> (c # x) # xs | [] \<Rightarrow> [[c]]))"

fun join :: "char \<Rightarrow> string list \<Rightarrow> string" where
  "join sep [] = []"
| "join sep [x] = x"
| "join sep (x # y # xs) = x @ sep # join sep (y # xs)"

text \<open>
  The constants of the module: the schemes that take a host and those that take
  parameters, the characters of a scheme, the characters stripped from the start of an
  address (the C0 controls and the space) and those removed anywhere in it.
\<close>

definition uses_netloc :: "string list" where
  "uses_netloc =
     [[], ''ftp'', ''http'', ''gopher'', ''nntp'', ''telnet'', ''imap'', ''wais'', ''file'', ''mms'',
      ''https'', ''shttp'', ''snews'', ''prospero'', ''rtsp'', ''rtsps'', ''rtspu'', ''rsync'',
      ''svn'', ''svn+ssh'', ''sftp'', ''nfs'', ''git'', ''git+ssh'', ''ws'', ''wss'']"

definition uses_params :: "string list" where
  "uses_params =
     [[], ''ftp'', ''hdl'', ''prospero'', ''http'', ''imap'', ''https'', ''shttp'', ''rtsp'',
      ''rtsps'', ''rtspu'', ''sip'', ''sips'', ''mms'', ''sftp'', ''tel'']"

definition scheme_chars :: string where
  "scheme_chars = lowers @ uppers @ digits @ ''+-.''"

definition c0_control_or_space :: "char \<Rightarrow> bool" where
  "c0_control_or_space c \<longleftrightarrow> of_char c \<le> (0x20 :: nat)"

definition unsafe_bytes :: string where
  "unsafe_bytes = [CHR 0x09, CHR 0x0D, CHR 0x0A]"

text \<open>
  The host between square brackets must be an IPv6 address as \<open>ipaddress.ip_address\<close>
  reads it, or an address of a later version (\<open>v\<close>, hexadecimal digits, a point, more
  text).
\<close>

definition hex_chars :: string where
  "hex_chars = ''0123456789ABCDEFabcdef''"

definition valid_octet :: "string \<Rightarrow> bool" where
  "valid_octet s \<longleftrightarrow>
     s \<noteq> [] \<and> list_all (\<lambda>c. c \<in> set digits) s \<and> length s \<le> 3 \<and>
     (s = ''0'' \<or> hd s \<noteq> CHR ''0'') \<and> int_of_digits s \<le> 255"

definition valid_ipv4 :: "string \<Rightarrow> bool" where
  "valid_ipv4 s \<longleftrightarrow>
     s \<noteq> [] \<and> CHR ''/'' \<notin> set s \<and>
     length (split CHR ''.'' s) = 4 \<and> list_all valid_octet (split CHR ''.'' s)"

definition valid_hextet :: "string \<Rightarrow> bool" where
  "valid_hextet s \<longleftrightarrow> s \<noteq> [] \<and> list_all (\<lambda>c. c \<in> set hex_chars) s \<and> length s \<le> 4"

definition ipv6_parts :: "string list \<Rightarrow> bool" where
  "ipv6_parts parts \<longleftrightarrow>
     length parts \<le> 9 \<and>
     (case filter (\<lambda>i. parts ! i = []) [1..<length parts - 1] of
        [] \<Rightarrow> length parts = 8 \<and> list_all valid_hextet parts
      | [skip_index] \<Rightarrow>
          (let parts_hi = (if hd parts = [] then skip_index - 1 else skip_index);
               parts_lo = (if last parts = [] then length parts - skip_index - 2
                           else length parts - skip_index - 1)
           in (if hd parts = [] then parts_hi = 0 else True) \<and>
              (if last parts = [] then parts_lo = 0 else True) \<and>
              parts_hi + parts_lo \<le> 7 \<and>
              list_all valid_hextet (take parts_hi parts) \<and>
              list_all valid_hextet (drop (length parts - parts_lo) parts))
      | _ \<Rightarrow> False)"

definition valid_ipv6 :: "string \<Rightarrow> bool" where
  "valid_ipv6 ip_str \<longleftrightarrow>
     CHR ''/'' \<notin> set ip_str \<and>
     (if CHR ''%'' \<in> set ip_str
      then after CHR ''%'' ip_str \<noteq> [] \<and> CHR ''%'' \<notin> set (after CHR ''%'' ip_str)
      else True) \<and>
     before CHR ''%'' ip_str \<noteq> [] \<and>
     (let parts = split CHR '':'' (before CHR ''%'' ip_str)
      in length parts \<ge> 3 \<and>
         (if CHR ''.'' \<in> set (last parts)
          then valid_ipv4 (last parts) \<and> ipv6_parts (butlast parts @ [''0'', ''0''])
          else ipv6_parts parts))"

definition valid_ipvfuture :: "string \<Rightarrow> bool" where
  "valid_ipvfuture hostname \<longleftrightarrow>
     (let rest = dropWhile (\<lambda>c. c \<in> set hex_chars) (tl hostname)
      in takeWhile (\<lambda>c. c \<in> set hex_chars) (tl hostname) \<noteq> [] \<and>
         take 1 rest = ''.'' \<and> length rest \<ge> 2)"

text \<open>\<open>_check_bracketed_host\<close>: true where it returns, false where it raises.\<close>

definition check_bracketed_host :: "string \<Rightarrow> bool" where
  "check_bracketed_host hostname \<longleftrightarrow>
     (if take 1 hostname = ''v'' then valid_ipvfuture hostname else valid_ipv6 hostname)"

text \<open>
  The checks of \<open>urlsplit\<close> on the host part: a square bracket without its partner
  raises, and so does a bracketed host that is no address.
\<close>

definition netloc_ok :: "string \<Rightarrow> bool" where
  "netloc_ok netloc \<longleftrightarrow>
     (if (CHR ''['' \<in> set netloc) \<noteq> (CHR '']'' \<in> set netloc) then False
      else if CHR ''['' \<in> set netloc
      then check_bracketed_host (before CHR '']'' (after CHR ''['' netloc))
      else True)"

text \<open>
  The scheme: the text before the first colon, lower-cased, if it is not empty, begins
  with an ASCII letter and consists of scheme characters; otherwise there is none.
\<close>

definition split_scheme :: "string \<Rightarrow> string \<times> string" where
  "split_scheme url =
     (if CHR '':'' \<in> set url \<and> before CHR '':'' url \<noteq> [] \<and> hd url \<in> set (lowers @ uppers) \<and>
         list_all (\<lambda>c. c \<in> set scheme_chars) (before CHR '':'' url)
      then (lower (before CHR '':'' url), after CHR '':'' url)
      else ([], url))"

text \<open>\<open>_splitnetloc(url, 2)\<close>: the host part runs to the first of \<open>/?#\<close>.\<close>

definition splitnetloc :: "string \<Rightarrow> string \<times> string" where
  "splitnetloc url =
     (takeWhile (\<lambda>c. c \<notin> set ''/?#'') (drop 2 url),
      dropWhile (\<lambda>c. c \<notin> set ''/?#'') (drop 2 url))"

text \<open>\<open>urlsplit(url)\<close>: scheme, host part, path, query and fragment.\<close>

definition urlsplit :: "string \<Rightarrow> py_error + string \<times> string \<times> string \<times> string \<times> string" where
  "urlsplit url =
     (let url = dropWhile c0_control_or_space url;
          url = filter (\<lambda>c. c \<notin> set unsafe_bytes) url;
          (scheme, url) = split_scheme url;
          (netloc, url) = (if take 2 url = ''//'' then splitnetloc url else ([], url))
      in if \<not> netloc_ok netloc then Inl ValueError
         else let fragment = after CHR ''#'' url;
                  url = before CHR ''#'' url;
                  query = after CHR ''?'' url;
                  url = before CHR ''?'' url
              in Inr (scheme, netloc, url, query, fragment))"

text \<open>
  \<open>_splitparams(url)\<close>, which is called on a text with a semicolon: the parameters follow
  the first semicolon after the last slash.
\<close>

definition splitparams :: "string \<Rightarrow> string \<times> string" where
  "splitparams url =
     (let tail = rev (takeWhile (\<lambda>c. c \<noteq> CHR ''/'') (rev url));
          front = take (length url - length tail) url
      in if CHR '';'' \<in> set tail
         then (front @ before CHR '';'' tail, after CHR '';'' tail)
         else (url, []))"

record parsed_url =
  url_scheme :: string
  url_netloc :: string
  url_path :: string
  url_params :: string
  url_query :: string
  url_fragment :: string

definition urlparse :: "string \<Rightarrow> py_error + parsed_url" where
  "urlparse url =
     (case urlsplit url of
        Inl e \<Rightarrow> Inl e
      | Inr (scheme, netloc, url, query, fragment) \<Rightarrow>
          let (url, params) = (if scheme \<in> set uses_params \<and> CHR '';'' \<in> set url
                               then splitparams url else (url, []))
          in Inr \<lparr>url_scheme = scheme, url_netloc = netloc, url_path = url,
                  url_params = params, url_query = query, url_fragment = fragment\<rparr>)"

definition urlunsplit :: "string \<times> string \<times> string \<times> string \<times> string \<Rightarrow> string" where
  "urlunsplit components =
     (case components of (scheme, netloc, url, query, fragment) \<Rightarrow>
        let url = (if netloc \<noteq> [] \<or> (scheme \<noteq> [] \<and> scheme \<in> set uses_netloc) \<or> take 2 url = ''//''
                   then ''//'' @ netloc @ (if url \<noteq> [] \<and> take 1 url \<noteq> ''/'' then CHR ''/'' # url else url)
                   else url);
            url = (if scheme \<noteq> [] then scheme @ CHR '':'' # url else url);
            url = (if query \<noteq> [] then url @ CHR ''?'' # query else url);
            url = (if fragment \<noteq> [] then url @ CHR ''#'' # fragment else url)
        in url)"

definition urlunparse :: "parsed_url \<Rightarrow> string" where
  "urlunparse p =
     urlunsplit (url_scheme p, url_netloc p,
                 (if url_params p \<noteq> [] then url_path p @ CHR '';'' # url_params p else url_path p),
                 url_query p, url_fragment p)"

text \<open>
  Percent-encoding. \<open>unquote\<close> replaces each \<open>%\<close> that two hexadecimal digits follow by
  the byte they denote and copies everything else. \<open>quote_plus\<close> keeps letters, digits and
  \<open>_.-~\<close>, writes a space as \<open>+\<close> and every other byte as \<open>%XX\<close>. Escapes that are not
  the UTF-8 encoding of a character, which the library replaces by U+FFFD, are not
  modelled.
\<close>

definition hex_digits :: string where
  "hex_digits = ''0123456789ABCDEF''"

definition hex_val :: "char \<Rightarrow> nat option" where
  "hex_val c =
     (let k = length (takeWhile (\<lambda>d. d \<noteq> upper_char c) hex_digits)
      in if k < 16 then Some k else None)"

fun unquote :: "string \<Rightarrow> string" where
  "unquote (c # h1 # h2 # s) =
     (if c = CHR ''%'' then
        (case (hex_val h1, hex_val h2) of
           (Some a, Some b) \<Rightarrow> char_of (16 * a + b) # unquote s
         | _ \<Rightarrow> c # unquote (h1 # h2 # s))
      else c # unquote (h1 # h2 # s))"
| "unquote s = s"

definition unquote_plus :: "string \<Rightarrow> string" where
  "unquote_plus s = unquote (map (\<lambda>c. if c = CHR ''+'' then CHR '' '' else c) s)"

definition quote_char :: "char \<Rightarrow> string" where
  "quote_char c =
     (if c \<in> set (uppers @ lowers @ digits @ ''_.-~'') then [c]
      else if c = CHR '' '' then ''+''
      else [CHR ''%'', hex_digits ! (of_char c div 16), hex_digits ! (of_char c mod 16)])"

definition quote_plus :: "string \<Rightarrow> string" where
  "quote_plus s = concat (map quote_char s)"

text \<open>
  \<open>parse_qsl\<close> with its defaults: the query is cut at every \<open>&\<close>; a piece that is
  empty, has no \<open>=\<close>, or has nothing after its first \<open>=\<close> is dropped; of the others the
  name and the value are decoded.
\<close>

definition parse_qsl :: "string \<Rightarrow> (string \<times> string) list" where
  "parse_qsl qs =
     concat (map (\<lambda>name_value.
         let name = takeWhile (\<lambda>c. c \<noteq> CHR ''='') name_value;
             val = drop (Suc (length name)) name_value
         in if val \<noteq> [] then [(unquote_plus name, unquote_plus val)] else [])
       (if qs = [] then [] else split CHR ''&'' qs))"

text \<open>
  A dictionary is the list of its items in insertion order. Its values are lists of
  strings; the string that \<open>add_affiliate_tag\<close> stores under \<open>tag\<close> is the list of that one
  string, which \<open>urlencode\<close> with \<open>doseq=True\<close> writes in the same way.
\<close>

type_synonym query_dict = "(string \<times> string list) list"

text \<open>\<open>d[k].append(v)\<close> if \<open>k\<close> is a key of \<open>d\<close>, else \<open>d[k] = [v]\<close>.\<close>

fun dict_append :: "query_dict \<Rightarrow> string \<Rightarrow> string \<Rightarrow> query_dict" where
  "dict_append [] k v = [(k, [v])]"
| "dict_append ((k', vs) # d) k v =
     (if k' = k then (k', vs @ [v]) # d else (k', vs) # dict_append d k v)"

text \<open>\<open>d[k] = vs\<close>\<close>

fun dict_set :: "query_dict \<Rightarrow> string \<Rightarrow> string list \<Rightarrow> query_dict" where
  "dict_set [] k vs = [(k, vs)]"
| "dict_set ((k', vs') # d) k vs =
     (if k' = k then (k', vs) # d else (k', vs') # dict_set d k vs)"

definition parse_qs :: "string \<Rightarrow> query_dict" where
  "parse_qs qs = foldl (\<lambda>d (name, val). dict_append d name val) [] (parse_qsl qs)"

definition urlencode :: "query_dict \<Rightarrow> string" where
  "urlencode d =
     join CHR ''&''
       (concat (map (\<lambda>(k, vs). map (\<lambda>v. quote_plus k @ CHR ''='' # quote_plus v) vs) d))"

definition add_affiliate_tag :: "string \<Rightarrow> py_error + string" where
  "add_affiliate_tag u =
     (case urlparse u of
        Inl e \<Rightarrow> Inl e
      | Inr parsed \<Rightarrow>
          let q = parse_qs (url_query parsed);
              q = dict_set q ''tag'' [AFFILIATE_TAG]
          in Inr (urlunparse (parsed\<lparr>url_query := urlencode q\<rparr>)))"

section \<open>The curation run\<close>

text \<open>
  \<open>scrape_amazon_details\<close> returns the fallback data: the price found in the title, or
  \<open>$?\<close>.
\<close>

record details =
  details_price :: string
  details_rating :: string
  details_reviews :: string

definition scrape_amazon_details :: "string \<Rightarrow> string option \<Rightarrow> details" where
  "scrape_amazon_details asin title_price_fallback =
     \<lparr>details_price =
        (case title_price_fallback of
           Some p \<Rightarrow> if p \<noteq> [] then p else ''$?''
         | None \<Rightarrow> ''$?''),
      details_rating = ''N/A'',
      details_reviews = ''N/A''\<rparr>"

text \<open>A feed entry, with \<open>entry.get(key, "")\<close> for its three keys.\<close>

record entry =
  entry_title :: string
  entry_summary :: string
  entry_link :: string

text \<open>A deal of the output; \<open>deal_id\<close> is its key \<open>id\<close>.\<close>

record deal =
  deal_id :: string
  title :: string
  image :: string
  price :: string
  rating :: string
  reviews :: string
  url :: string
  category :: string
  timestamp :: int
  score :: int
  discount :: int

text \<open>
  The variables of \<open>main\<close> that the loop changes. \<open>category_counts\<close> is a
  \<open>defaultdict(int)\<close>: a key not yet stored reads as 0.
\<close>

record state =
  deals :: "deal list"
  seen_asins :: "string set"
  seen_titles :: "string set"
  category_counts :: "string \<Rightarrow> nat"

definition init_state :: state where
  "init_state = \<lparr>deals = [], seen_asins = {}, seen_titles = {}, category_counts = (\<lambda>_. 0)\<rparr>"

text \<open>
  The places where the loop body leaves an entry out (\<open>continue\<close>), and \<open>Raised\<close>: the
  call of \<open>add_affiliate_tag\<close> raised an exception.
\<close>

datatype skip = No_url | No_asin | Duplicate_title | Category_full | No_image | Raised py_error

text \<open>\<open>x or y\<close> on optional strings: \<open>x\<close> unless it is \<open>None\<close> or empty.\<close>

definition py_or :: "string option \<Rightarrow> string option \<Rightarrow> string option" where
  "py_or x y = (case x of Some s \<Rightarrow> if s \<noteq> [] then x else y | None \<Rightarrow> y)"

text \<open>
  The clock is outside the program: \<open>now k\<close> is what \<open>int(time.time())\<close> returns the
  \<open>k\<close>-th time the run calls it, counting from 0. The run calls it once for each deal it
  accepts, so the call for a new deal is number \<open>length (deals st)\<close>.

  The body of the inner loop, for one entry: \<open>Inl\<close> where it ends in \<open>continue\<close>,
  \<open>Inr\<close> with the new state where it accepts the entry.

  Where \<open>add_affiliate_tag\<close> raises, the program ends with that exception and writes no
  file. The outcome is then \<open>Inl (Raised err)\<close>, and the loops below go on to the next
  entry: \<open>process_entries\<close>, \<open>process_feeds\<close> and \<open>main\<close> are the state and the output
  of the runs that end normally, in which no entry has this outcome.
\<close>

definition process_entry :: "html_parser \<Rightarrow> (nat \<Rightarrow> int) \<Rightarrow> state \<Rightarrow> entry \<Rightarrow> skip + state" where
  "process_entry html_img now st e =
     (let t = strip (entry_title e);
          summary = entry_summary e;
          fallback_link = entry_link e
      in case py_or (extract_amazon_url summary fallback_link) None of
           None \<Rightarrow> Inl No_url
         | Some amazon_url \<Rightarrow>
        (case py_or (extract_asin amazon_url) None of
           None \<Rightarrow> Inl No_asin
         | Some asin \<Rightarrow>
             if asin \<in> seen_asins st then Inl No_asin
             else if \<exists>seen \<in> seen_titles st. is_duplicate_title t seen then Inl Duplicate_title
             else let cat = categorize t in
               if category_counts st cat \<ge> max_per_category then Inl Category_full
               else
                 (case py_or (extract_image_from_summary html_img summary)
                             (py_or (amazon_image_from_asin asin) None) of
                    None \<Rightarrow> Inl No_image
                  | Some img \<Rightarrow>
                      let disc = extract_discount_from_title t;
                          title_price_fallback = extract_price_from_title t;
                          dt = scrape_amazon_details asin title_price_fallback;
                          sc = calculate_deal_score t (details_price dt) disc;
                          cleaned_title = clean_title t
                      in case add_affiliate_tag amazon_url of
                           Inl err \<Rightarrow> Inl (Raised err)
                         | Inr final_url \<Rightarrow>
                      let d = \<lparr>deal_id = asin, title = cleaned_title, image = img,
                               price = details_price dt, rating = details_rating dt,
                               reviews = details_reviews dt, url = final_url, category = cat,
                               timestamp = now (length (deals st)), score = sc, discount = disc\<rparr>
                      in Inr (st\<lparr>deals := deals st @ [d],
                                 seen_asins := insert asin (seen_asins st),
                                 seen_titles := insert cleaned_title (seen_titles st),
                                 category_counts := (category_counts st)(cat := category_counts st cat + 1)\<rparr>))))"

text \<open>
  The inner loop over the entries of one feed: it ends early (\<open>break\<close>) when an accepted
  entry brings the number of deals to \<open>MAX_DEALS\<close>.
\<close>

fun process_entries :: "html_parser \<Rightarrow> (nat \<Rightarrow> int) \<Rightarrow> state \<Rightarrow> entry list \<Rightarrow> state" where
  "process_entries html_img now st [] = st"
| "process_entries html_img now st (e # es) =
     (case process_entry html_img now st e of
        Inl _ \<Rightarrow> process_entries html_img now st es
      | Inr st' \<Rightarrow>
          if length (deals st') \<ge> MAX_DEALS then st'
          else process_entries html_img now st' es)"

text \<open>
  The outer loop over the feeds. Fetching is outside the program: \<open>feeds\<close> lists, in the
  order of \<open>RSS_FEEDS\<close>, the entries \<open>fetch_feed\<close> returns for each address (none when the
  fetch fails). A feed is not fetched once there are \<open>MAX_DEALS\<close> deals.
\<close>

fun process_feeds :: "html_parser \<Rightarrow> (nat \<Rightarrow> int) \<Rightarrow> state \<Rightarrow> entry list list \<Rightarrow> state" where
  "process_feeds html_img now st [] = st"
| "process_feeds html_img now st (entries # feeds) =
     (if length (deals st) \<ge> MAX_DEALS then st
      else process_feeds html_img now (process_entries html_img now st entries) feeds)"

text \<open>
  \<open>deals.sort(key=lambda x: (x['score'], x['timestamp']), reverse=True)\<close>: the list is
  reversed, sorted by a stable sort in ascending order of the key, and reversed again,
  which is how \<open>list.sort\<close> keeps the order of equal keys under \<open>reverse=True\<close>. Pairs
  are compared lexicographically.
\<close>

definition sort_key_fn :: "deal \<Rightarrow> int \<times> int" where
  "sort_key_fn x = (score x, timestamp x)"

definition sort_deals :: "deal list \<Rightarrow> deal list" where
  "sort_deals ds = rev (sort_key sort_key_fn (rev ds))"

text \<open>The deals that \<open>main\<close> writes, in the order in which it writes them.\<close>

definition main :: "html_parser \<Rightarrow> (nat \<Rightarrow> int) \<Rightarrow> entry list list \<Rightarrow> deal list" where
  "main html_img now feeds = sort_deals (deals (process_feeds html_img now init_state feeds))"

section \<open>Sample entries\<close>

text \<open>Feed entries on which the theorems below are instantiated.\<close>

definition no_img :: html_parser where
  "no_img = (\<lambda>summary. None)"

definition echo_entry :: entry where
  "echo_entry = \<lparr>entry_title = ''Echo Dot'', entry_summary = [],
                  entry_link = ''https://www.amazon.com/dp/B08N5WRWNW''\<rparr>"

definition mouse_entry :: entry where
  "mouse_entry =
     \<lparr>entry_title = ''Razer Gaming Mouse'',
      entry_summary = ''Now at https://www.amazon.com/dp/B08N5WRWNW?th=1 for less'',
      entry_link = ''https://slickdeals.net/f/1''\<rparr>"

definition hot_echo_entry :: entry where
  "hot_echo_entry = \<lparr>entry_title = ''[HOT] Echo Dot'', entry_summary = [],
                      entry_link = ''https://www.amazon.com/dp/B07XJ8C8F5''\<rparr>"

definition lamp_entry :: entry where
  "lamp_entry = \<lparr>entry_title = ''Desk Lamp'', entry_summary = [],
                  entry_link = ''https://www.amazon.com/dp/B09B8V1LZ3''\<rparr>"

text \<open>A clock that stands still and one that moves on between any two calls.\<close>

definition frozen_clock :: "nat \<Rightarrow> int" where
  "frozen_clock k = 1700000000"

definition ticking_clock :: "nat \<Rightarrow> int" where
  "ticking_clock k = 1700000000 + int k"

definition promo_entry :: "string \<Rightarrow> entry" where
  "promo_entry asin =
     \<lparr>entry_title = ''[Amazon] Echo Dot 5th Gen (50% OFF) - $19.99'', entry_summary = [],
      entry_link = ''https://www.amazon.com/dp/'' @ asin\<rparr>"


definition sample_deal :: deal where
  "sample_deal =
     \<lparr>deal_id = ''B000000000'', title = ''Desk Lamp'', image = ''https://example.com/lamp.jpg'',
      price = ''$?'', rating = ''N/A'', reviews = ''N/A'',
      url = ''https://www.amazon.com/dp/B000000000?tag=syncflow-20'', category = ''Home'',
      timestamp = 0, score = 0, discount = 0\<rparr>"

text \<open>States that hold 79 and 80 deals.\<close>

definition state_with :: "nat \<Rightarrow> state" where
  "state_with n = init_state\<lparr>deals := replicate n sample_deal\<rparr>"

section \<open>Properties of the loop\<close>

text \<open>What accepting an entry does to the state, and where the new deal's fields come from.\<close>

lemma py_or_None_Some: "py_or x None = Some s \<Longrightarrow> x = Some s \<and> s \<noteq> []"
  by (auto simp: py_or_def split: option.splits if_splits)

lemma py_or_nonempty: "py_or x (py_or y None) = Some s \<Longrightarrow> s \<noteq> []"
  by (auto simp: py_or_def split: option.splits if_splits)

lemma process_entry_accept:
  "process_entry html_img now st e = Inr st' \<Longrightarrow>
   \<exists>d amazon_url.
     deals st' = deals st @ [d] \<and>
     seen_asins st' = insert (deal_id d) (seen_asins st) \<and>
     seen_titles st' = insert (title d) (seen_titles st) \<and>
     category_counts st' = (category_counts st)(category d := category_counts st (category d) + 1) \<and>
     deal_id d \<notin> seen_asins st \<and>
     category_counts st (category d) < max_per_category \<and>
     extract_amazon_url (entry_summary e) (entry_link e) = Some amazon_url \<and>
     extract_asin amazon_url = Some (deal_id d) \<and>
     deal_id d \<noteq> [] \<and>
     title d = clean_title (strip (entry_title e)) \<and>
     category d = categorize (strip (entry_title e)) \<and>
     discount d = extract_discount_from_title (strip (entry_title e)) \<and>
     price d = details_price (scrape_amazon_details (deal_id d)
                 (extract_price_from_title (strip (entry_title e)))) \<and>
     score d = calculate_deal_score (strip (entry_title e)) (price d) (discount d) \<and>
     add_affiliate_tag amazon_url = Inr (url d) \<and>
     timestamp d = now (length (deals st)) \<and>
     rating d = ''N/A'' \<and> reviews d = ''N/A'' \<and>
     \<not> (\<exists>seen \<in> seen_titles st. is_duplicate_title (strip (entry_title e)) seen) \<and>
     image d \<noteq> []"
  unfolding process_entry_def Let_def
  by (auto split: option.splits if_splits sum.splits dest!: py_or_None_Some dest: py_or_nonempty
           simp: scrape_amazon_details_def)

text \<open>
  An invariant of the run: a property of the state that every accepted entry keeps,
  given that the entry was processed while fewer than \<open>MAX_DEALS\<close> deals were held,
  holds after the inner loop and after the outer loop.
\<close>

lemma process_entries_invariant:
  assumes step: "\<And>st e st'. P st \<Longrightarrow> length (deals st) < MAX_DEALS \<Longrightarrow>
                   process_entry html_img now st e = Inr st' \<Longrightarrow> P st'"
  shows "P st \<Longrightarrow> length (deals st) < MAX_DEALS \<Longrightarrow> P (process_entries html_img now st es)"
proof (induction es arbitrary: st)
  case Nil
  then show ?case by simp
next
  case (Cons e es)
  show ?case
  proof (cases "process_entry html_img now st e")
    case (Inl r)
    with Cons show ?thesis by simp
  next
    case (Inr st')
    have "P st'" using step [OF Cons.prems Inr] .
    with Inr Cons.IH [of st'] show ?thesis by (simp add: not_le)
  qed
qed

lemma process_feeds_invariant:
  assumes step: "\<And>st e st'. P st \<Longrightarrow> length (deals st) < MAX_DEALS \<Longrightarrow>
                   process_entry html_img now st e = Inr st' \<Longrightarrow> P st'"
  shows "P st \<Longrightarrow> P (process_feeds html_img now st feeds)"
proof (induction feeds arbitrary: st)
  case Nil
  then show ?case by simp
next
  case (Cons entries feeds)
  show ?case
  proof (cases "length (deals st) \<ge> MAX_DEALS")
    case True
    with Cons.prems show ?thesis by simp
  next
    case False
    then have "P (process_entries html_img now st entries)"
      using process_entries_invariant [of P html_img now st entries] step Cons.prems
      by (simp add: not_le)
    from Cons.IH [OF this] False show ?thesis by simp
  qed
qed

text \<open>The sort puts the deals in another order and changes none.\<close>

lemma mset_sort_deals: "mset (sort_deals ds) = mset ds"
  by (simp add: sort_deals_def)


lemma length_sort_deals: "length (sort_deals ds) = length ds"
  by (simp add: sort_deals_def)

lemma filter_sort_deals_length:
  "length (filter P (sort_deals ds)) = length (filter P ds)"
proof -
  have "mset (filter P (sort_deals ds)) = mset (filter P ds)"
    by (simp add: mset_sort_deals)
  then show ?thesis by (rule mset_eq_length)
qed

lemma distinct_map_sort_deals:
  "distinct (map f (sort_deals ds)) = distinct (map f ds)"
proof -
  have "mset (map f (sort_deals ds)) = mset (map f ds)"
    by (simp add: mset_sort_deals)
  then show ?thesis by (rule mset_eq_imp_distinct_iff)
qed

section \<open>Unique identifiers\<close>

definition ids_ok :: "state \<Rightarrow> bool" where
  "ids_ok st \<longleftrightarrow> seen_asins st = set (map deal_id (deals st)) \<and> distinct (map deal_id (deals st))"

lemma ids_ok_step:
  assumes "ids_ok st" "process_entry html_img now st e = Inr st'"
  shows "ids_ok st'"
proof -
  from process_entry_accept [OF assms(2)] obtain d where
    d: "deals st' = deals st @ [d]" "seen_asins st' = insert (deal_id d) (seen_asins st)"
       "deal_id d \<notin> seen_asins st"
    by blast
  with assms(1) show ?thesis by (auto simp: ids_ok_def)
qed

lemma ids_ok_run: "ids_ok (process_feeds html_img now init_state feeds)"
proof (rule process_feeds_invariant [where P = ids_ok])
  show "ids_ok init_state" by (simp add: ids_ok_def init_state_def)
qed (rule ids_ok_step)

lemma seen_asin_skipped:
  assumes "extract_amazon_url (entry_summary e) (entry_link e) = Some u"
    and "extract_asin u = Some a" and "a \<in> seen_asins st"
  shows "process_entry html_img now st e = Inl No_url \<or> process_entry html_img now st e = Inl No_asin"
  using assms unfolding process_entry_def Let_def
  by (auto simp: py_or_def split: option.splits)

text \<open>
  C1. The identifiers of the deals that \<open>main\<close> writes are pairwise distinct, for every
  HTML parser, clock and list of feeds; and an entry whose product address yields an
  identifier that is already among the seen ones is left out (the state is not changed).
\<close>

theorem output_ids_distinct:
  "distinct (map deal_id (main html_img now feeds)) \<and>
   (\<forall>st e u a. extract_amazon_url (entry_summary e) (entry_link e) = Some u \<longrightarrow>
      extract_asin u = Some a \<longrightarrow> a \<in> seen_asins st \<longrightarrow>
      (\<exists>r. process_entry html_img now st e = Inl r))"
proof
  show "distinct (map deal_id (main html_img now feeds))"
    using ids_ok_run [of html_img now feeds]
    by (simp add: main_def distinct_map_sort_deals ids_ok_def)
next
  show "\<forall>st e u a. extract_amazon_url (entry_summary e) (entry_link e) = Some u \<longrightarrow>
      extract_asin u = Some a \<longrightarrow> a \<in> seen_asins st \<longrightarrow>
      (\<exists>r. process_entry html_img now st e = Inl r)"
    using seen_asin_skipped by blast
qed

theorem output_ids_distinct_witness:
  "extract_amazon_url (entry_summary mouse_entry) (entry_link mouse_entry)
     = Some ''https://www.amazon.com/dp/B08N5WRWNW?th=1'' \<and>
   extract_asin ''https://www.amazon.com/dp/B08N5WRWNW?th=1'' = Some ''B08N5WRWNW'' \<and>
   ''B08N5WRWNW'' \<in> seen_asins (process_feeds no_img (\<lambda>k. 0) init_state [[echo_entry]]) \<and>
   (\<exists>r. process_entry no_img (\<lambda>k. 0)
          (process_feeds no_img (\<lambda>k. 0) init_state [[echo_entry]]) mouse_entry = Inl r) \<and>
   distinct (map deal_id (main no_img (\<lambda>k. 0) [[echo_entry, mouse_entry]])) \<and>
   map deal_id (main no_img (\<lambda>k. 0) [[echo_entry, mouse_entry]]) = [''B08N5WRWNW'']"
proof -
  have h1: "extract_amazon_url (entry_summary mouse_entry) (entry_link mouse_entry)
     = Some ''https://www.amazon.com/dp/B08N5WRWNW?th=1''"
    by code_simp
  have h2: "extract_asin ''https://www.amazon.com/dp/B08N5WRWNW?th=1'' = Some ''B08N5WRWNW''"
    by code_simp
  have h3: "''B08N5WRWNW'' \<in> seen_asins (process_feeds no_img (\<lambda>k. 0) init_state [[echo_entry]])"
    by code_simp
  have h4: "map deal_id (main no_img (\<lambda>k. 0) [[echo_entry, mouse_entry]]) = [''B08N5WRWNW'']"
    by code_simp
  note inst = output_ids_distinct [of no_img "\<lambda>k. 0" "[[echo_entry, mouse_entry]]"]
  from inst have "distinct (map deal_id (main no_img (\<lambda>k. 0) [[echo_entry, mouse_entry]]))"
    by (rule conjunct1)
  moreover from inst h1 h2 h3
  have "\<exists>r. process_entry no_img (\<lambda>k. 0)
          (process_feeds no_img (\<lambda>k. 0) init_state [[echo_entry]]) mouse_entry = Inl r"
    by blast
  ultimately show ?thesis using h1 h2 h3 h4 by blast
qed

section \<open>Capacity\<close>

text \<open>
  The counters agree with the accepted deals, no category holds more than
  \<open>max_per_category\<close> of them, and there are at most \<open>MAX_DEALS\<close> in all.
\<close>

definition caps_ok :: "state \<Rightarrow> bool" where
  "caps_ok st \<longleftrightarrow>
     length (deals st) \<le> MAX_DEALS \<and>
     (\<forall>c. category_counts st c = length (filter (\<lambda>d. category d = c) (deals st))) \<and>
     (\<forall>c. length (filter (\<lambda>d. category d = c) (deals st)) \<le> max_per_category)"

lemma caps_ok_init: "caps_ok init_state"
  by (simp add: caps_ok_def init_state_def)

lemma caps_ok_step:
  assumes ok: "caps_ok st" and room: "length (deals st) < MAX_DEALS"
    and acc: "process_entry html_img now st e = Inr st'"
  shows "caps_ok st'"
proof -
  from process_entry_accept [OF acc] obtain d where
    d: "deals st' = deals st @ [d]"
       "category_counts st' = (category_counts st)(category d := category_counts st (category d) + 1)"
       "category_counts st (category d) < max_per_category"
    by blast
  from ok have cnt: "\<And>c. category_counts st c = length (filter (\<lambda>d. category d = c) (deals st))"
    and cap: "\<And>c. length (filter (\<lambda>d. category d = c) (deals st)) \<le> max_per_category"
    by (simp_all add: caps_ok_def)
  have "length (deals st') \<le> MAX_DEALS" using d(1) room by simp
  moreover have "category_counts st' c = length (filter (\<lambda>d. category d = c) (deals st'))" for c
    using d(1,2) cnt [of c] by auto
  moreover have "length (filter (\<lambda>d. category d = c) (deals st')) \<le> max_per_category" for c
    using d(1,3) cnt [of c] cap [of c] by (cases "category d = c") simp_all
  ultimately show ?thesis by (simp add: caps_ok_def)
qed

lemma caps_ok_run: "caps_ok (process_feeds html_img now init_state feeds)"
proof (rule process_feeds_invariant [where P = caps_ok])
  show "caps_ok init_state" by (rule caps_ok_init)
qed (rule caps_ok_step)

lemma process_feeds_full:
  "length (deals st) \<ge> MAX_DEALS \<Longrightarrow> process_feeds html_img now st feeds = st"
  by (cases feeds) simp_all

text \<open>
  C2. The deals \<open>main\<close> writes are at most 80, and at most 25 of any one category. The
  same holds at every point of the run: it holds of the initial state with its counters,
  and every entry accepted while fewer than 80 deals are held keeps it; the loops process
  an entry only then, since the outer loop leaves a state with 80 deals as it is, whatever
  feeds remain, and the inner loop returns at once, whatever entries remain, when an
  accepted entry brings the number of deals to 80.
\<close>

theorem caps_respected:
  "length (main html_img now feeds) \<le> 80 \<and>
   (\<forall>c. length (filter (\<lambda>d. category d = c) (main html_img now feeds)) \<le> 25) \<and>
   caps_ok init_state \<and>
   (\<forall>st e st'. caps_ok st \<longrightarrow> length (deals st) < 80 \<longrightarrow>
      process_entry html_img now st e = Inr st' \<longrightarrow> caps_ok st') \<and>
   (\<forall>st. length (deals st) \<ge> 80 \<longrightarrow> process_feeds html_img now st feeds = st) \<and>
   (\<forall>st e st' es. process_entry html_img now st e = Inr st' \<longrightarrow> length (deals st') \<ge> 80 \<longrightarrow>
      process_entries html_img now st (e # es) = st')"
proof (intro conjI allI impI)
  show "length (main html_img now feeds) \<le> 80"
    using caps_ok_run [of html_img now feeds]
    by (simp add: main_def length_sort_deals caps_ok_def MAX_DEALS_def)
next
  fix c
  show "length (filter (\<lambda>d. category d = c) (main html_img now feeds)) \<le> 25"
    using caps_ok_run [of html_img now feeds]
    by (simp add: main_def filter_sort_deals_length caps_ok_def max_per_category_def)
next
  show "caps_ok init_state" by (rule caps_ok_init)
next
  fix st e st'
  assume "caps_ok st" "length (deals st) < 80" "process_entry html_img now st e = Inr st'"
  then show "caps_ok st'" using caps_ok_step [of st html_img now e st'] by (simp add: MAX_DEALS_def)
next
  fix st :: state
  assume "length (deals st) \<ge> 80"
  then show "process_feeds html_img now st feeds = st"
    by (simp add: process_feeds_full MAX_DEALS_def)
next
  fix st e st' es
  assume "process_entry html_img now st e = Inr st'" "length (deals st') \<ge> 80"
  then show "process_entries html_img now st (e # es) = st'"
    by (simp add: MAX_DEALS_def)
qed

theorem caps_respected_witness:
  "caps_ok init_state \<and> length (deals init_state) < 80 \<and>
   (\<exists>st'. process_entry no_img (\<lambda>k. 0) init_state echo_entry = Inr st' \<and> caps_ok st') \<and>
   length (main no_img (\<lambda>k. 0) [[echo_entry], [hot_echo_entry]]) = 2 \<and>
   length (main no_img (\<lambda>k. 0) [[echo_entry], [hot_echo_entry]]) \<le> 80 \<and>
   length (filter (\<lambda>d. category d = ''General'')
             (main no_img (\<lambda>k. 0) [[echo_entry], [hot_echo_entry]])) \<le> 25 \<and>
   length (deals (state_with 80)) \<ge> 80 \<and>
   process_feeds no_img (\<lambda>k. 0) (state_with 80) [[echo_entry], [hot_echo_entry]] = state_with 80 \<and>
   (\<exists>st'. process_entry no_img (\<lambda>k. 0) (state_with 79) echo_entry = Inr st' \<and>
          length (deals st') \<ge> 80 \<and>
          process_entries no_img (\<lambda>k. 0) (state_with 79) [echo_entry, hot_echo_entry] = st')"
proof -
  note inst = caps_respected [of no_img "\<lambda>k. 0" "[[echo_entry], [hot_echo_entry]]"]
  have room: "length (deals init_state) < 80" by (simp add: init_state_def)
  have "\<not> isl (process_entry no_img (\<lambda>k. 0) init_state echo_entry)" by code_simp
  then obtain st1 where st1: "process_entry no_img (\<lambda>k. 0) init_state echo_entry = Inr st1"
    by (cases "process_entry no_img (\<lambda>k. 0) init_state echo_entry") auto
  from inst room st1 have ok1: "caps_ok st1" by blast
  have two: "length (main no_img (\<lambda>k. 0) [[echo_entry], [hot_echo_entry]]) = 2" by code_simp
  have full: "length (deals (state_with 80)) \<ge> 80" by (simp add: state_with_def)
  from inst full
  have stop: "process_feeds no_img (\<lambda>k. 0) (state_with 80) [[echo_entry], [hot_echo_entry]]
                = state_with 80"
    by blast
  have "\<not> isl (process_entry no_img (\<lambda>k. 0) (state_with 79) echo_entry)" by code_simp
  then obtain st2 where st2: "process_entry no_img (\<lambda>k. 0) (state_with 79) echo_entry = Inr st2"
    by (cases "process_entry no_img (\<lambda>k. 0) (state_with 79) echo_entry") auto
  from process_entry_accept [OF st2] have len2: "length (deals st2) \<ge> 80"
    by (auto simp: state_with_def)
  from inst st2 len2
  have brk: "process_entries no_img (\<lambda>k. 0) (state_with 79) [echo_entry, hot_echo_entry] = st2"
    by blast
  from inst room st1 ok1 two full stop st2 len2 brk show ?thesis by blast
qed

section \<open>Order of the output\<close>

lemma sort_deals_sorted:
  "sorted_wrt (\<lambda>a b. score b < score a \<or> (score a = score b \<and> timestamp b \<le> timestamp a))
     (sort_deals ds)"
proof -
  have "sorted (map sort_key_fn (sort_key sort_key_fn (rev ds)))"
    by (rule sorted_sort_key)
  then have "sorted_wrt (\<lambda>a b. sort_key_fn b \<le> sort_key_fn a) (sort_deals ds)"
    by (simp add: sort_deals_def sorted_map sorted_wrt_rev)
  then show ?thesis
    by (rule sorted_wrt_mono_rel [rotated]) (auto simp: sort_key_fn_def)
qed

lemma sort_deals_stable:
  "filter (\<lambda>d. score d = s \<and> timestamp d = t) (sort_deals ds)
     = filter (\<lambda>d. score d = s \<and> timestamp d = t) ds"
proof -
  have eq: "(\<lambda>d. score d = s \<and> timestamp d = t) = (\<lambda>d. sort_key_fn d = (s, t))"
    by (auto simp: sort_key_fn_def)
  show ?thesis
    unfolding eq sort_deals_def
    by (simp add: sort_key_stable flip: rev_filter)
qed

text \<open>
  C3. The output of \<open>main\<close> is the accepted list rearranged: of two deals the one with
  the higher score comes first and, at equal score, the one with the later timestamp; the
  deals that have the same score and the same timestamp stand in the order in which they
  were accepted. The output is \<open>sort_deals\<close> of the accepted list, so it depends on nothing
  else.
\<close>

theorem output_sorted:
  "sorted_wrt (\<lambda>a b. score b < score a \<or> (score a = score b \<and> timestamp b \<le> timestamp a))
     (main html_img now feeds) \<and>
   mset (main html_img now feeds) = mset (deals (process_feeds html_img now init_state feeds)) \<and>
   (\<forall>s t. filter (\<lambda>d. score d = s \<and> timestamp d = t) (main html_img now feeds)
          = filter (\<lambda>d. score d = s \<and> timestamp d = t)
              (deals (process_feeds html_img now init_state feeds))) \<and>
   main html_img now feeds = sort_deals (deals (process_feeds html_img now init_state feeds))"
  by (simp add: main_def sort_deals_sorted sort_deals_stable mset_sort_deals)

theorem output_sorted_witness:
  "map (\<lambda>d. (deal_id d, score d, timestamp d))
       (deals (process_feeds no_img (\<lambda>k. 0) init_state [[echo_entry, hot_echo_entry, lamp_entry]]))
     = [(''B08N5WRWNW'', 0, 0), (''B07XJ8C8F5'', 1, 0), (''B09B8V1LZ3'', 0, 0)] \<and>
   map (\<lambda>d. (deal_id d, score d, timestamp d))
       (main no_img (\<lambda>k. 0) [[echo_entry, hot_echo_entry, lamp_entry]])
     = [(''B07XJ8C8F5'', 1, 0), (''B08N5WRWNW'', 0, 0), (''B09B8V1LZ3'', 0, 0)] \<and>
   sorted_wrt (\<lambda>a b. score b < score a \<or> (score a = score b \<and> timestamp b \<le> timestamp a))
     (main no_img (\<lambda>k. 0) [[echo_entry, hot_echo_entry, lamp_entry]]) \<and>
   filter (\<lambda>d. score d = 0 \<and> timestamp d = 0)
       (main no_img (\<lambda>k. 0) [[echo_entry, hot_echo_entry, lamp_entry]])
     = filter (\<lambda>d. score d = 0 \<and> timestamp d = 0)
         (deals (process_feeds no_img (\<lambda>k. 0) init_state [[echo_entry, hot_echo_entry, lamp_entry]]))"
proof -
  note inst = output_sorted [of no_img "\<lambda>k. 0" "[[echo_entry, hot_echo_entry, lamp_entry]]"]
  have a: "map (\<lambda>d. (deal_id d, score d, timestamp d))
       (deals (process_feeds no_img (\<lambda>k. 0) init_state [[echo_entry, hot_echo_entry, lamp_entry]]))
     = [(''B08N5WRWNW'', 0, 0), (''B07XJ8C8F5'', 1, 0), (''B09B8V1LZ3'', 0, 0)]"
    by code_simp
  have b: "map (\<lambda>d. (deal_id d, score d, timestamp d))
       (main no_img (\<lambda>k. 0) [[echo_entry, hot_echo_entry, lamp_entry]])
     = [(''B07XJ8C8F5'', 1, 0), (''B08N5WRWNW'', 0, 0), (''B09B8V1LZ3'', 0, 0)]"
    by code_simp
  from inst a b show ?thesis by blast
qed

section \<open>Two runs on the same input\<close>

text \<open>A deal without its timestamp, and states that differ in timestamps at most.\<close>

definition untimed :: "deal \<Rightarrow> deal" where
  "untimed d = d\<lparr>timestamp := 0\<rparr>"

definition same_but_time :: "state \<Rightarrow> state \<Rightarrow> bool" where
  "same_but_time st1 st2 \<longleftrightarrow>
     map untimed (deals st1) = map untimed (deals st2) \<and>
     seen_asins st1 = seen_asins st2 \<and>
     seen_titles st1 = seen_titles st2 \<and>
     category_counts st1 = category_counts st2"

lemma same_but_time_length: "same_but_time st1 st2 \<Longrightarrow> length (deals st1) = length (deals st2)"
  unfolding same_but_time_def by (metis length_map)

lemma process_entry_same_but_time:
  assumes "same_but_time st1 st2"
  shows "(case process_entry html_img now1 st1 e of
            Inl r \<Rightarrow> process_entry html_img now2 st2 e = Inl r
          | Inr s1 \<Rightarrow> (\<exists>s2. process_entry html_img now2 st2 e = Inr s2 \<and> same_but_time s1 s2))"
  using assms
  unfolding process_entry_def Let_def same_but_time_def
  by (simp add: untimed_def split: option.splits sum.splits)

lemma process_entries_same_but_time:
  "same_but_time st1 st2 \<Longrightarrow>
   same_but_time (process_entries html_img now1 st1 es) (process_entries html_img now2 st2 es)"
proof (induction es arbitrary: st1 st2)
  case Nil
  then show ?case by simp
next
  case (Cons e es)
  note step = process_entry_same_but_time [OF Cons.prems, where html_img = html_img
      and ?now1.0 = now1 and ?now2.0 = now2 and e = e]
  show ?case
  proof (cases "process_entry html_img now1 st1 e")
    case (Inl r)
    with step Cons show ?thesis by simp
  next
    case (Inr s1)
    with step obtain s2 where s2: "process_entry html_img now2 st2 e = Inr s2" "same_but_time s1 s2"
      by auto
    from same_but_time_length [OF s2(2)] Cons.IH [OF s2(2)] Inr s2 show ?thesis by simp
  qed
qed

lemma process_feeds_same_but_time:
  "same_but_time st1 st2 \<Longrightarrow>
   same_but_time (process_feeds html_img now1 st1 feeds) (process_feeds html_img now2 st2 feeds)"
proof (induction feeds arbitrary: st1 st2)
  case Nil
  then show ?case by simp
next
  case (Cons entries feeds)
  from same_but_time_length [OF Cons.prems]
       Cons.IH [OF process_entries_same_but_time [OF Cons.prems]] Cons.prems
  show ?case by simp
qed

text \<open>Two clocks that agree on the calls a run can make give the same run.\<close>

lemma process_entry_clock:
  "\<forall>k < MAX_DEALS. now1 k = now2 k \<Longrightarrow> length (deals st) < MAX_DEALS \<Longrightarrow>
   process_entry html_img now1 st e = process_entry html_img now2 st e"
  unfolding process_entry_def Let_def by (auto split: option.splits sum.splits)

lemma process_entries_clock:
  "\<forall>k < MAX_DEALS. now1 k = now2 k \<Longrightarrow> length (deals st) < MAX_DEALS \<Longrightarrow>
   process_entries html_img now1 st es = process_entries html_img now2 st es"
proof (induction es arbitrary: st)
  case Nil
  then show ?case by simp
next
  case (Cons e es)
  from process_entry_clock [OF Cons.prems]
  have eq: "process_entry html_img now1 st e = process_entry html_img now2 st e" .
  show ?case
  proof (cases "process_entry html_img now2 st e")
    case (Inl r)
    with eq Cons show ?thesis by simp
  next
    case (Inr st')
    with eq Cons.IH [of st'] Cons.prems(1) show ?thesis by (simp add: not_le)
  qed
qed

lemma process_feeds_clock:
  "\<forall>k < MAX_DEALS. now1 k = now2 k \<Longrightarrow>
   process_feeds html_img now1 st feeds = process_feeds html_img now2 st feeds"
proof (induction feeds arbitrary: st)
  case Nil
  then show ?case by simp
next
  case (Cons entries feeds)
  show ?case
  proof (cases "length (deals st) \<ge> MAX_DEALS")
    case True
    then show ?thesis by simp
  next
    case False
    with process_entries_clock [OF Cons.prems, of st html_img entries] Cons.IH [OF Cons.prems]
    show ?thesis by (simp add: not_le)
  qed
qed

text \<open>
  C4, as the claim states it, fails: the timestamp of a deal is read from the clock, and
  the order of deals of equal score follows the timestamps. On the same two entries, a run
  under a clock that stands still and a run under a clock that moves on write different
  timestamps and put the deals in different orders.
\<close>

theorem two_runs_differ:
  "map (\<lambda>d. (deal_id d, timestamp d)) (main no_img frozen_clock [[echo_entry, lamp_entry]])
     = [(''B08N5WRWNW'', 1700000000), (''B09B8V1LZ3'', 1700000000)] \<and>
   map (\<lambda>d. (deal_id d, timestamp d)) (main no_img ticking_clock [[echo_entry, lamp_entry]])
     = [(''B09B8V1LZ3'', 1700000001), (''B08N5WRWNW'', 1700000000)] \<and>
   main no_img frozen_clock [[echo_entry, lamp_entry]]
     \<noteq> main no_img ticking_clock [[echo_entry, lamp_entry]]"
proof -
  have a: "map (\<lambda>d. (deal_id d, timestamp d)) (main no_img frozen_clock [[echo_entry, lamp_entry]])
     = [(''B08N5WRWNW'', 1700000000), (''B09B8V1LZ3'', 1700000000)]"
    by code_simp
  have b: "map (\<lambda>d. (deal_id d, timestamp d)) (main no_img ticking_clock [[echo_entry, lamp_entry]])
     = [(''B09B8V1LZ3'', 1700000001), (''B08N5WRWNW'', 1700000000)]"
    by code_simp
  have "main no_img frozen_clock [[echo_entry, lamp_entry]]
     \<noteq> main no_img ticking_clock [[echo_entry, lamp_entry]]"
  proof
    assume "main no_img frozen_clock [[echo_entry, lamp_entry]]
      = main no_img ticking_clock [[echo_entry, lamp_entry]]"
    with a b show False by simp
  qed
  with a b show ?thesis by blast
qed

text \<open>
  C4, amended. Two runs on the same feeds with the same HTML parser accept the same
  entries in the same order and give their deals the same fields, the timestamp apart;
  so the two outputs hold the same deals up to timestamps, each in sorted order. If the
  clocks of the two runs agree on their first 80 readings, which are all a run can take,
  the two outputs are equal.
\<close>

theorem two_runs_agree:
  "map untimed (deals (process_feeds html_img now1 init_state feeds))
     = map untimed (deals (process_feeds html_img now2 init_state feeds)) \<and>
   mset (map untimed (main html_img now1 feeds)) = mset (map untimed (main html_img now2 feeds)) \<and>
   ((\<forall>k < 80. now1 k = now2 k) \<longrightarrow> main html_img now1 feeds = main html_img now2 feeds)"
proof (intro conjI impI)
  have "same_but_time init_state init_state" by (simp add: same_but_time_def)
  from process_feeds_same_but_time [OF this]
  show acc: "map untimed (deals (process_feeds html_img now1 init_state feeds))
     = map untimed (deals (process_feeds html_img now2 init_state feeds))"
    by (simp add: same_but_time_def)
  have m: "mset (map untimed (main html_img now feeds))
      = mset (map untimed (deals (process_feeds html_img now init_state feeds)))" for now
    by (simp add: main_def mset_sort_deals)
  show "mset (map untimed (main html_img now1 feeds))
      = mset (map untimed (main html_img now2 feeds))"
    unfolding m by (simp only: acc)
next
  assume "\<forall>k < 80. now1 k = now2 k"
  then have "\<forall>k < MAX_DEALS. now1 k = now2 k" by (simp add: MAX_DEALS_def)
  from process_feeds_clock [OF this] show "main html_img now1 feeds = main html_img now2 feeds"
    by (simp add: main_def)
qed

theorem two_runs_agree_witness:
  "map untimed (deals (process_feeds no_img frozen_clock init_state [[echo_entry, lamp_entry]]))
     = map untimed (deals (process_feeds no_img ticking_clock init_state [[echo_entry, lamp_entry]])) \<and>
   map deal_id (deals (process_feeds no_img ticking_clock init_state [[echo_entry, lamp_entry]]))
     = [''B08N5WRWNW'', ''B09B8V1LZ3''] \<and>
   mset (map untimed (main no_img frozen_clock [[echo_entry, lamp_entry]]))
     = mset (map untimed (main no_img ticking_clock [[echo_entry, lamp_entry]])) \<and>
   main no_img frozen_clock [[echo_entry, lamp_entry]]
     = main no_img (\<lambda>k. if k < 80 then 1700000000 else 0) [[echo_entry, lamp_entry]] \<and>
   frozen_clock 80 \<noteq> (\<lambda>k::nat. if k < 80 then 1700000000 else 0) 80"
proof -
  note inst1 = two_runs_agree [of no_img frozen_clock "[[echo_entry, lamp_entry]]" ticking_clock]
  note inst2 = two_runs_agree [of no_img frozen_clock "[[echo_entry, lamp_entry]]"
                  "\<lambda>k. if k < 80 then 1700000000 else 0"]
  have same: "\<forall>k < 80. frozen_clock k = (\<lambda>k. if k < 80 then 1700000000 else 0) k"
    by (simp add: frozen_clock_def)
  have ids: "map deal_id (deals (process_feeds no_img ticking_clock init_state [[echo_entry, lamp_entry]]))
     = [''B08N5WRWNW'', ''B09B8V1LZ3'']"
    by code_simp
  have differ: "frozen_clock 80 \<noteq> (\<lambda>k::nat. if k < 80 then 1700000000 else 0) 80"
    by (simp add: frozen_clock_def)
  from inst2 same
  have "main no_img frozen_clock [[echo_entry, lamp_entry]]
     = main no_img (\<lambda>k. if k < 80 then 1700000000 else 0) [[echo_entry, lamp_entry]]"
    by blast
  with inst1 ids differ show ?thesis by blast
qed

section \<open>The title in the duplicate check\<close>

text \<open>
  C5. The loop compares the title as it came (stripped of surrounding blanks) with the
  titles it has stored, and these are the cleaned ones: the comparison and the stored value
  are not the same text. Two entries with the same title and different identifiers are
  both accepted, with the same stored title, since the title as it came is unlike its own
  cleaned form (ratio 8/15); compared in cleaned form, the second would have been a
  duplicate of the first.
\<close>

theorem same_title_accepted_twice:
  "map (\<lambda>d. (deal_id d, title d))
       (main no_img frozen_clock [[promo_entry ''B08N5WRWNW'', promo_entry ''B07XJ8C8F5'']])
     = [(''B08N5WRWNW'', ''Echo Dot 5th Gen''), (''B07XJ8C8F5'', ''Echo Dot 5th Gen'')] \<and>
   clean_title (strip (entry_title (promo_entry ''B07XJ8C8F5''))) = ''Echo Dot 5th Gen'' \<and>
   ratio (lower (strip (entry_title (promo_entry ''B07XJ8C8F5'')))) (lower ''Echo Dot 5th Gen'')
     = 8 / 15 \<and>
   \<not> is_duplicate_title (strip (entry_title (promo_entry ''B07XJ8C8F5''))) ''Echo Dot 5th Gen'' \<and>
   is_duplicate_title (clean_title (strip (entry_title (promo_entry ''B07XJ8C8F5''))))
     ''Echo Dot 5th Gen''"
proof -
  have a: "map (\<lambda>d. (deal_id d, title d))
       (main no_img frozen_clock [[promo_entry ''B08N5WRWNW'', promo_entry ''B07XJ8C8F5'']])
     = [(''B08N5WRWNW'', ''Echo Dot 5th Gen''), (''B07XJ8C8F5'', ''Echo Dot 5th Gen'')]"
    by code_simp
  have b: "clean_title (strip (entry_title (promo_entry ''B07XJ8C8F5''))) = ''Echo Dot 5th Gen''"
    by code_simp
  have c: "ratio (lower (strip (entry_title (promo_entry ''B07XJ8C8F5'')))) (lower ''Echo Dot 5th Gen'')
     = 8 / 15"
    by code_simp
  have d: "\<not> is_duplicate_title (strip (entry_title (promo_entry ''B07XJ8C8F5''))) ''Echo Dot 5th Gen''"
    by code_simp
  have e: "is_duplicate_title ''Echo Dot 5th Gen'' ''Echo Dot 5th Gen''"
    by code_simp
  from a b c d e show ?thesis by simp
qed

section \<open>The score\<close>









section \<open>The title normalizer on the specification's example\<close>

text \<open>
  C7. On the title \<open>[HOT] Deal: Echo Dot (50% OFF) - $19.99\<close> the function returns
  \<open>Deal: Echo Dot\<close> and not \<open>Echo Dot\<close>. Removing the tag, the discount and the price
  leaves a text that begins with the blank that followed the tag; the pattern of the
  prefixes is anchored at the start of the text, where that blank stands, so it matches
  nothing, and the blank is removed only afterwards. Without the blank the same pattern
  removes the prefix.
\<close>

theorem clean_title_keeps_prefix:
  "clean_title ''[HOT] Deal: Echo Dot (50% OFF) - $19.99'' = ''Deal: Echo Dot'' \<and>
   re_sub trailing_price [] (re_sub paren_discount [] (re_sub bracket_tag []
       ''[HOT] Deal: Echo Dot (50% OFF) - $19.99'')) = '' Deal: Echo Dot  '' \<and>
   re_sub deal_prefix [] '' Deal: Echo Dot  '' = '' Deal: Echo Dot  '' \<and>
   re_sub deal_prefix [] ''Deal: Echo Dot  '' = '' Echo Dot  ''"
proof -
  have a: "clean_title ''[HOT] Deal: Echo Dot (50% OFF) - $19.99'' = ''Deal: Echo Dot''"
    by code_simp
  have b: "re_sub trailing_price [] (re_sub paren_discount [] (re_sub bracket_tag []
       ''[HOT] Deal: Echo Dot (50% OFF) - $19.99'')) = '' Deal: Echo Dot  ''"
    by code_simp
  have c: "re_sub deal_prefix [] '' Deal: Echo Dot  '' = '' Deal: Echo Dot  ''"
    by code_simp
  have d: "re_sub deal_prefix [] ''Deal: Echo Dot  '' = '' Echo Dot  ''"
    by code_simp
  from a b c d show ?thesis by blast
qed

section \<open>The categorizer\<close>

lemma categorize_first_match: "categorize t = first_match taxonomy (lower t)"
  by (simp add: categorize_def taxonomy_def Let_def)

text \<open>
  C8. The categorizer gives \<open>Tech\<close> for the title \<open>Razer Gaming Mouse\<close>. For every title
  it returns the label of the first row of the table, in the order Tech, Gaming, Home,
  Fitness, Accessories, Gifts, Baby, Beauty, Pets, that has a keyword in the lower-cased
  title, and \<open>General\<close> if none has. The example has keywords of both Tech (\<open>mouse\<close>) and
  Gaming (\<open>gaming\<close>), and Tech comes first.
\<close>

theorem categorize_priority:
  "categorize ''Razer Gaming Mouse'' = ''Tech'' \<and>
   (\<forall>t. categorize t = first_match taxonomy (lower t)) \<and>
   map fst taxonomy = [''Tech'', ''Gaming'', ''Home'', ''Fitness'', ''Accessories'', ''Gifts'',
                       ''Baby'', ''Beauty'', ''Pets''] \<and>
   ''mouse'' \<in> set tech_keywords \<and> contains (lower ''Razer Gaming Mouse'') ''mouse'' \<and>
   ''gaming'' \<in> set gaming_keywords \<and> contains (lower ''Razer Gaming Mouse'') ''gaming'' \<and>
   any_in tech_keywords (lower ''Razer Gaming Mouse'') \<and>
   any_in gaming_keywords (lower ''Razer Gaming Mouse'')"
proof -
  have a: "categorize ''Razer Gaming Mouse'' = ''Tech''" by code_simp
  have b: "map fst taxonomy = [''Tech'', ''Gaming'', ''Home'', ''Fitness'', ''Accessories'', ''Gifts'',
                       ''Baby'', ''Beauty'', ''Pets'']"
    by (simp add: taxonomy_def)
  have c: "''mouse'' \<in> set tech_keywords" "''gaming'' \<in> set gaming_keywords"
    by (simp_all add: tech_keywords_def gaming_keywords_def)
  have d: "contains (lower ''Razer Gaming Mouse'') ''mouse''"
    "contains (lower ''Razer Gaming Mouse'') ''gaming''"
    by code_simp+
  have e: "any_in tech_keywords (lower ''Razer Gaming Mouse'')"
    "any_in gaming_keywords (lower ''Razer Gaming Mouse'')"
    by code_simp+
  from a b c d e categorize_first_match show ?thesis by blast
qed

theorem categorize_priority_witness:
  "first_match taxonomy (lower ''Razer Gaming Mouse'') = ''Tech'' \<and>
   first_match (tl taxonomy) (lower ''Razer Gaming Mouse'') = ''Gaming''"
proof -
  from categorize_priority have "first_match taxonomy (lower ''Razer Gaming Mouse'') = ''Tech''"
    by metis
  moreover have "first_match (tl taxonomy) (lower ''Razer Gaming Mouse'') = ''Gaming''"
    by code_simp
  ultimately show ?thesis by (rule conjI)
qed

section \<open>The image\<close>

lemma image_never_absent:
  "asin \<noteq> [] \<Longrightarrow>
   \<exists>img. py_or (extract_image_from_summary html_img summary)
               (py_or (amazon_image_from_asin asin) None) = Some img \<and> img \<noteq> []"
  by (auto simp: py_or_def amazon_image_from_asin_def extract_image_from_summary_def
           split: option.splits)

lemma image_not_None:
  "asin \<noteq> [] \<Longrightarrow> py_or x (py_or (amazon_image_from_asin asin) None) \<noteq> None"
  by (auto simp: py_or_def amazon_image_from_asin_def split: option.splits)

lemma process_entry_not_No_image: "process_entry html_img now st e \<noteq> Inl No_image"
  unfolding process_entry_def Let_def
  by (auto split: option.splits sum.splits dest!: py_or_None_Some simp: image_not_None)

text \<open>
  C10. For a non-empty identifier the image is never absent: the image taken from the
  summary is used if there is one, and otherwise the address built from the identifier,
  which is a non-empty text. The loop reaches the image only with a non-empty identifier,
  so it never leaves an entry out for lack of an image, in any state and for any entry,
  parser and clock.
\<close>

theorem image_always_present:
  "(asin \<noteq> [] \<longrightarrow>
      (\<exists>img. py_or (extract_image_from_summary html_img summary)
                   (py_or (amazon_image_from_asin asin) None) = Some img \<and> img \<noteq> [])) \<and>
   (asin \<noteq> [] \<longrightarrow> extract_image_from_summary html_img summary = None \<longrightarrow>
      py_or (extract_image_from_summary html_img summary) (py_or (amazon_image_from_asin asin) None)
        = Some (''https://m.media-amazon.com/images/I/'' @ asin @ ''._AC_SL1500_.jpg'')) \<and>
   process_entry html_img now st e \<noteq> Inl No_image"
  using image_never_absent [of asin html_img summary] process_entry_not_No_image [of html_img now st e]
  by (auto simp: py_or_def amazon_image_from_asin_def)

theorem image_always_present_witness:
  "''B08N5WRWNW'' \<noteq> [] \<and> extract_image_from_summary no_img [] = None \<and>
   py_or (extract_image_from_summary no_img []) (py_or (amazon_image_from_asin ''B08N5WRWNW'') None)
     = Some ''https://m.media-amazon.com/images/I/B08N5WRWNW._AC_SL1500_.jpg'' \<and>
   process_entry no_img frozen_clock init_state echo_entry \<noteq> Inl No_image \<and>
   map image (main no_img frozen_clock [[echo_entry]])
     = [''https://m.media-amazon.com/images/I/B08N5WRWNW._AC_SL1500_.jpg'']"
proof -
  note inst = image_always_present [of "''B08N5WRWNW''" no_img "[]" frozen_clock init_state echo_entry]
  have a: "''B08N5WRWNW'' \<noteq> []" by simp
  have b: "extract_image_from_summary no_img [] = None" by code_simp
  have c: "map image (main no_img frozen_clock [[echo_entry]])
     = [''https://m.media-amazon.com/images/I/B08N5WRWNW._AC_SL1500_.jpg'']"
    by code_simp
  from inst a b c show ?thesis by simp
qed

section \<open>The affiliate tag in the address\<close>


























































































lemma hd_path: "before CHR ''?'' (before CHR ''#'' T) \<noteq> [] \<Longrightarrow>
   hd (before CHR ''?'' (before CHR ''#'' T)) = hd T"
  by (cases T) (auto simp: before_def split: if_splits)





















text \<open>
  An address on which \<open>urlparse\<close> raises: a host with a closing square bracket and no
  opening one. An entry with this link passes every check of the loop body, which then
  ends with the exception.
\<close>

lemma bracket_entry_raises:
  "add_affiliate_tag ''https://www.amazon.com]/dp/B08N5WRWNW'' = Inl ValueError \<and>
   process_entry no_img frozen_clock init_state
     \<lparr>entry_title = ''Echo Dot'', entry_summary = [],
      entry_link = ''https://www.amazon.com]/dp/B08N5WRWNW''\<rparr> = Inl (Raised ValueError)"
proof -
  let ?e = "\<lparr>entry_title = ''Echo Dot'', entry_summary = [],
      entry_link = ''https://www.amazon.com]/dp/B08N5WRWNW''\<rparr>"
  have a: "add_affiliate_tag ''https://www.amazon.com]/dp/B08N5WRWNW'' = Inl ValueError"
    by code_simp
  have "isl (process_entry no_img frozen_clock init_state ?e) \<and>
      projl (process_entry no_img frozen_clock init_state ?e) = Raised ValueError"
    by code_simp
  then have "process_entry no_img frozen_clock init_state ?e = Inl (Raised ValueError)"
    by (cases "process_entry no_img frozen_clock init_state ?e") auto
  with a show ?thesis by simp
qed




end
